theory Spec2Isabelle
  imports Complex_Main "HOL-Library.Sublist" "HOL-Library.Char_ord" "HOL-Library.List_Lexorder"
begin

section \<open>Exceptions and strings\<close>

text \<open>
  Modelled from the spec: the exception classes of \<open>iib.exceptions\<close>, which is not among
  the sources (\<open>ValidationError\<close>, and \<open>IIBError\<close>, the spec's \<open>ExecutionError\<close>).
  The exceptions of the program. \<open>ValidationError\<close> and \<open>IIBError\<close> are the classes of
  \<open>iib.exceptions\<close>, with their message; the others are the built-in exceptions that the
  modelled code can raise.
\<close>

datatype exn =
  ValidationError string | IIBError string
  | IndexError | KeyError | AttributeError | ValueError

text \<open>
  A Python \<open>str\<close> is modelled as a \<open>string\<close>, one \<open>char\<close> for each code point; code points
  above 255 are outside the model.
\<close>

section \<open>Retrying a section of code (\<open>iib/workers/tasks/utils.py\<close>, \<open>retry\<close>)\<close>

text \<open>
  The decorated function is an effectful Python callable: it reads and changes the world
  (type \<open>'s\<close>), and either returns a value (\<open>Inr\<close>) or raises an exception (\<open>Inl\<close>).
  The exception class \<open>wait_on\<close> of the source is the predicate "is an instance of that
  class". The logger is an object that collects records; \<open>None\<close> is Python's \<open>None\<close>.
\<close>

record ('x, 's, 'e, 'a) pyfunction =
  fn_call :: "'x \<Rightarrow> 's \<Rightarrow> ('e + 'a) \<times> 's"
  fn_module :: string
  fn_name :: string

datatype log_level = DEBUG | INFO | WARNING | ERROR

text \<open>
  \<open>Log_warning e name\<close> is the record of
  \<^verbatim>\<open>logger.warning('Exception %r raised from %r.  Retrying now', e, name)\<close>;
  \<open>Log_exception n e\<close> is the record of
  \<^verbatim>\<open>logger.exception('The maximum number of attempts (%s) have failed', n)\<close>, which
  the logging module emits at level ERROR together with the exception being handled.
\<close>

datatype 'e log_record = Log_warning 'e string | Log_exception int 'e

fun levelname :: "'e log_record \<Rightarrow> log_level" where
  "levelname (Log_warning e n) = WARNING"
| "levelname (Log_exception n e) = ERROR"

type_synonym 'e logger = "'e log_record list option"

definition logger_warning :: "'e logger \<Rightarrow> 'e \<Rightarrow> string \<Rightarrow> 'e logger" where
  "logger_warning logger e n = map_option (\<lambda>rs. rs @ [Log_warning e n]) logger"

definition logger_exception :: "'e logger \<Rightarrow> int \<Rightarrow> 'e \<Rightarrow> 'e logger" where
  "logger_exception logger n e = map_option (\<lambda>rs. rs @ [Log_exception n e]) logger"

text \<open>
  What one run of \<open>inner\<close> leaves behind: what it returned or raised, the world after the
  last invocation, the logger, and how many times the function was invoked (a counter of
  the model, which the source does not keep).
\<close>

record ('s, 'e, 'a) outcome =
  result :: "'e + 'a"
  world :: 's
  logged :: "'e logger"
  invocations :: nat

text \<open>
  The \<^verbatim>\<open>while True\<close> loop of \<open>inner\<close>, from the state it has at the top of an
  iteration: \<open>remaining_attempts\<close>, the world, the logger and the invocations so far. An
  exception that is not an instance of \<open>wait_on\<close> is not caught.
\<close>

function inner_loop ::
  "int \<Rightarrow> ('e \<Rightarrow> bool) \<Rightarrow> ('x, 's, 'e, 'a) pyfunction \<Rightarrow> 'x \<Rightarrow>
   int \<Rightarrow> 's \<Rightarrow> 'e logger \<Rightarrow> nat \<Rightarrow> ('s, 'e, 'a) outcome" where
  "inner_loop attempts wait_on function args remaining_attempts s logger n =
     (case fn_call function args s of
        (Inr v, s') \<Rightarrow>
          \<lparr>result = Inr v, world = s', logged = logger, invocations = Suc n\<rparr>
      | (Inl e, s') \<Rightarrow>
          if wait_on e then
            if remaining_attempts - 1 \<le> 0 then
              \<lparr>result = Inl e, world = s',
               logged = logger_exception logger attempts e, invocations = Suc n\<rparr>
            else
              inner_loop attempts wait_on function args (remaining_attempts - 1) s'
                (logger_warning logger e (fn_module function @ ''.'' @ fn_name function))
                (Suc n)
          else \<lparr>result = Inl e, world = s', logged = logger, invocations = Suc n\<rparr>)"
  by pat_completeness auto
termination
  by (relation "measure (\<lambda>(attempts, wait_on, function, args, r, s, logger, n). nat r)") auto

text \<open>\<open>retry(attempts, wait_on, logger)(function)(args)\<close>, run in the world \<open>s\<close>.\<close>

definition retry ::
  "int \<Rightarrow> ('e \<Rightarrow> bool) \<Rightarrow> 'e logger \<Rightarrow> ('x, 's, 'e, 'a) pyfunction \<Rightarrow> 'x \<Rightarrow> 's \<Rightarrow>
   ('s, 'e, 'a) outcome" where
  "retry attempts wait_on logger function args s =
     inner_loop attempts wait_on function args attempts s logger 0"

definition count_level :: "log_level \<Rightarrow> 'e logger \<Rightarrow> nat" where
  "count_level l logger =
     (case logger of None \<Rightarrow> 0 | Some rs \<Rightarrow> length (filter (\<lambda>r. levelname r = l) rs))"

subsection \<open>Example callables\<close>

text \<open>
  \<open>failing_counter\<close> always raises; the exception it raises carries the number of earlier
  invocations, so that the failures of different invocations can be told apart.
  \<open>flaky\<close> raises on its first invocation only.
\<close>

definition failing_counter :: "(unit, nat, nat, unit) pyfunction" where
  "failing_counter =
     \<lparr>fn_call = (\<lambda>_ s. (Inl s, Suc s)), fn_module = ''m'', fn_name = ''f''\<rparr>"

definition flaky :: "(unit, nat, string, nat) pyfunction" where
  "flaky =
     \<lparr>fn_call = (\<lambda>_ s. (if s = 0 then Inl ''busy'' else Inr s, Suc s)),
      fn_module = ''m'', fn_name = ''f''\<rparr>"

section \<open>Running external commands (\<open>iib/workers/tasks/utils.py\<close>, \<open>run_cmd\<close>)\<close>

subsection \<open>\<open>str.splitlines\<close> and \<open>str.rstrip\<close>\<close>





subsection \<open>The regular expression of the fatal error\<close>

text \<open>
  \<^verbatim>\<open>re.match(r'^(?:.+level=fatal .*error=")(.+)(?:")$', msg)\<close>, read as the
  backtracking matcher that Python's \<open>re\<close> is. Each piece of the expression is a function
  of the text that is left, and of what is to be matched after the piece (\<open>k\<close>):
  \<^item> \<open>literal cs\<close> is a run of literal characters: it gives back the text after them;
  \<^item> \<open>dot_star k m\<close> is a greedy \<^verbatim>\<open>.*\<close>: it takes characters other than the line feed
    as long as it can, going on with \<open>k\<close>, and gives characters back one at a time while
    \<open>k\<close> fails; \<open>m\<close> is what it has taken so far;
  \<^item> \<open>dot_plus k\<close> is a greedy \<^verbatim>\<open>.+\<close>: one character, then \<^verbatim>\<open>.*\<close>;
  \<^item> \<open>at_end\<close> is \<^verbatim>\<open>$\<close> without the MULTILINE flag: the end of the text, or just
    before a line feed that ends the text.
  \<open>re.match\<close> anchors the match at the start of \<open>msg\<close>. The result is group 1, the only
  capturing group, when there is a match.
\<close>

fun literal :: "string \<Rightarrow> string \<Rightarrow> string option" where
  "literal [] s = Some s"
| "literal (c # cs) [] = None"
| "literal (c # cs) (d # ds) = (if c = d then literal cs ds else None)"

fun dot_star :: "(string \<Rightarrow> string \<Rightarrow> 'a option) \<Rightarrow> string \<Rightarrow> string \<Rightarrow> 'a option" where
  "dot_star k m [] = k m []"
| "dot_star k m (c # cs) =
     (if c = CHR 0x0A then k m (c # cs)
      else case dot_star k (m @ [c]) cs of Some r \<Rightarrow> Some r | None \<Rightarrow> k m (c # cs))"

fun dot_plus :: "(string \<Rightarrow> string \<Rightarrow> 'a option) \<Rightarrow> string \<Rightarrow> 'a option" where
  "dot_plus k [] = None"
| "dot_plus k (c # cs) = (if c = CHR 0x0A then None else dot_star k [c] cs)"

definition at_end :: "string \<Rightarrow> bool" where
  "at_end s \<longleftrightarrow> s = [] \<or> s = [CHR 0x0A]"

definition re_match_fatal :: "string \<Rightarrow> string option" where
  "re_match_fatal msg =
     dot_plus (\<lambda>p r1.
       case literal ''level=fatal '' r1 of None \<Rightarrow> None
       | Some r2 \<Rightarrow>
           dot_star (\<lambda>q r3.
             case literal (''error='' @ [CHR 0x22]) r3 of None \<Rightarrow> None
             | Some r4 \<Rightarrow>
                 dot_plus (\<lambda>m r5.
                   case literal [CHR 0x22] r5 of None \<Rightarrow> None
                   | Some r6 \<Rightarrow> if at_end r6 then Some m else None) r4)
           [] r2)
     msg"

subsection \<open>\<open>run_cmd\<close>\<close>





subsection \<open>Example process\<close>


section \<open>The data model (\<open>iib/web/models.py\<close>)\<close>

subsection \<open>Enumerations\<close>

text \<open>
  \<open>RequestStateMapping\<close> and \<open>RequestTypeMapping\<close>. \<open>value\<close> and \<open>name\<close> are the attributes of
  a member; \<open>RequestStateMapping_of_name\<close> is \<^verbatim>\<open>RequestStateMapping.__members__[state]\<close>,
  with \<open>None\<close> for \<open>KeyError\<close>; \<open>RequestStateMapping_of_value\<close> is
  \<^verbatim>\<open>RequestStateMapping(state)\<close>, with \<open>None\<close> for \<open>ValueError\<close>.
\<close>

datatype RequestStateMapping = in_progress | complete | failed

fun state_value :: "RequestStateMapping \<Rightarrow> int" where
  "state_value in_progress = 1"
| "state_value complete = 2"
| "state_value failed = 3"

fun state_member_name :: "RequestStateMapping \<Rightarrow> string" where
  "state_member_name in_progress = ''in_progress''"
| "state_member_name complete = ''complete''"
| "state_member_name failed = ''failed''"

definition RequestStateMapping_members :: "RequestStateMapping list" where
  "RequestStateMapping_members = [in_progress, complete, failed]"

definition RequestStateMapping_of_name :: "string \<Rightarrow> RequestStateMapping option" where
  "RequestStateMapping_of_name n = find (\<lambda>e. state_member_name e = n) RequestStateMapping_members"

definition RequestStateMapping_of_value :: "int \<Rightarrow> RequestStateMapping option" where
  "RequestStateMapping_of_value v = find (\<lambda>e. state_value e = v) RequestStateMapping_members"

text \<open>\<open>BaseEnum.get_names\<close> for \<open>RequestStateMapping\<close>: the names of the members, sorted.\<close>

definition get_names :: "string list" where
  "get_names = sort (map state_member_name RequestStateMapping_members)"

datatype RequestTypeMapping = add | rm

fun type_value :: "RequestTypeMapping \<Rightarrow> int" where
  "type_value add = 1"
| "type_value rm = 2"

text \<open>\<open>sep.join(xs)\<close>.\<close>

fun join :: "string \<Rightarrow> string list \<Rightarrow> string" where
  "join sep [] = []"
| "join sep [x] = x"
| "join sep (x # y # ys) = x @ sep @ join sep (y # ys)"

subsection \<open>Rows and objects\<close>

text \<open>
  One record for each mapped class, a field for each column or relationship that the
  modelled methods read or write. The primary key \<open>id\<close> of a class is \<open>arch_id\<close>,
  \<open>image_id\<close>, \<open>rs_id\<close>, \<open>user_id\<close> or \<open>req_id\<close> here; it is \<open>None\<close> until the object is
  flushed. A relationship to an \<open>Image\<close> holds a reference to the object: its position in
  the session (see \<open>db\<close> below).
\<close>

record Architecture =
  arch_id :: "nat option"
  name :: string

record Image =
  image_id :: "nat option"
  pull_specification :: string
  architectures :: "Architecture list"

text \<open>
  A naive \<open>datetime\<close> (the column has no time zone), with the fields in their ranges:
  \<open>year\<close> from 1 to 9999, \<open>microsecond\<close> below 1000000.
\<close>

record datetime =
  year :: nat
  month :: nat
  day :: nat
  hour :: nat
  minute :: nat
  second :: nat
  microsecond :: nat

text \<open>
  A \<open>RequestState\<close> row as the flush leaves it: the database has given it its key and, for
  \<open>updated\<close>, the time of the insertion (the column's default, \<open>now()\<close>).
\<close>

record RequestState =
  rs_id :: nat
  request_id :: nat
  state :: int
  state_reason :: string
  updated :: datetime

record User =
  user_id :: "nat option"
  username :: string

text \<open>
  \<open>binary_image\<close> is not nullable and \<open>to_json\<close> reads it without a default; the other
  images are optional. \<open>request_type\<close> is the column \<open>type\<close>. \<open>states\<close> is the list of the
  relationship as the object holds it in memory: \<open>append\<close> adds at the end.
\<close>

record Request =
  req_id :: "nat option"
  binary_image :: nat
  binary_image_resolved :: "nat option"
  bundles :: "nat list"
  from_index :: "nat option"
  from_index_resolved :: "nat option"
  index_image :: "nat option"
  request_state_id :: "nat option"
  request_type :: int
  user :: "User option"
  states :: "RequestState list"

subsection \<open>The database session\<close>

text \<open>
  Modelled from the spec: the storage session \<open>iib.web.db\<close>, which is not among the
  sources (images are "staged for the caller's storage transaction", every record has a
  surrogate key). The session is the part of it that the methods use. \<open>images\<close> are the \<open>Image\<close> objects of the session, in the order in which they came
  into it, the staged ones (added, not flushed: no key yet) with the others; the position of
  an object is its identity. \<open>request_states\<close> is the table of the flushed \<open>RequestState\<close>
  rows. The three counters are the sequences from which the database takes the next key.
\<close>

record db =
  images :: "Image list"
  next_image_id :: nat
  next_request_id :: nat
  request_states :: "RequestState list"
  next_request_state_id :: nat

text \<open>
  \<open>db.session.flush()\<close> for the images: each staged image gets the next key, in the order
  of staging.
\<close>

fun assign_image_ids :: "nat \<Rightarrow> Image list \<Rightarrow> Image list \<times> nat" where
  "assign_image_ids n [] = ([], n)"
| "assign_image_ids n (i # ims) =
     (case image_id i of
        Some k \<Rightarrow> (let (ims', n') = assign_image_ids n ims in (i # ims', n'))
      | None \<Rightarrow>
          (let (ims', n') = assign_image_ids (Suc n) ims in (i\<lparr>image_id := Some n\<rparr> # ims', n')))"

definition flush_images :: "db \<Rightarrow> db" where
  "flush_images d =
     (let (ims, n) = assign_image_ids (next_image_id d) (images d)
      in d\<lparr>images := ims, next_image_id := n\<rparr>)"

subsection \<open>\<open>Image.get_or_create\<close>\<close>

text \<open>The position of the first element that satisfies \<open>P\<close>.\<close>

fun find_index :: "('a \<Rightarrow> bool) \<Rightarrow> 'a list \<Rightarrow> nat option" where
  "find_index P [] = None"
| "find_index P (x # xs) = (if P x then Some 0 else map_option Suc (find_index P xs))"

text \<open>
  \<open>cls.query.filter_by(pull_specification=...).first()\<close> is a query of the session: the
  session flushes what is staged before it runs the query (autoflush, which the session has
  unless it is switched off), so the query finds the staged images too. A new image is
  added to the session and not flushed. The result is the reference to the image, and the
  session as the call leaves it; the exception is raised before the session is touched.
\<close>

definition get_or_create :: "db \<Rightarrow> string \<Rightarrow> (exn + nat) \<times> db" where
  "get_or_create d pull_spec =
     (if CHR ''@'' \<notin> set pull_spec \<and> CHR '':'' \<notin> set pull_spec then
        (Inl (ValidationError
           (''Image '' @ pull_spec @ '' should have a tag or a digest specified.'')), d)
      else
        (let d' = flush_images d in
         case find_index (\<lambda>i. pull_specification i = pull_spec) (images d') of
           Some img \<Rightarrow> (Inr img, d')
         | None \<Rightarrow>
             (Inr (length (images d')),
              d'\<lparr>images := images d' @
                   [\<lparr>image_id = None, pull_specification = pull_spec, architectures = []\<rparr>]\<rparr>)))"

definition count_images :: "db \<Rightarrow> string \<Rightarrow> nat" where
  "count_images d pull_spec =
     length (filter (\<lambda>i. pull_specification i = pull_spec) (images d))"

subsection \<open>\<open>Request.add_state\<close>\<close>

text \<open>
  The property \<open>RequestState.state_name\<close>: the name of the member with the value of the
  column, \<open>None\<close> when the value is 0 (not true in Python), and \<open>ValueError\<close> when no member
  has the value.
\<close>

definition state_name :: "RequestState \<Rightarrow> exn + string option" where
  "state_name rs =
     (if state rs \<noteq> 0 then
        (case RequestStateMapping_of_value (state rs) of
           None \<Rightarrow> Inl ValueError
         | Some e \<Rightarrow> Inr (Some (state_member_name e)))
      else Inr None)"

text \<open>
  The relationship \<open>Request.state\<close>, on the foreign key \<open>request_state_id\<close>: the row of the
  table with that key, \<open>None\<close> when the key is \<open>None\<close>.
\<close>

definition Request_state :: "db \<Rightarrow> Request \<Rightarrow> RequestState option" where
  "Request_state d self =
     (case request_state_id self of
        None \<Rightarrow> None
      | Some k \<Rightarrow> find (\<lambda>rs. rs_id rs = k) (request_states d))"

text \<open>
  The loop \<^verbatim>\<open>for s in ('complete', 'failed')\<close> of \<open>add_state\<close>, with the current state
  \<open>self.state\<close> of the request: the exception it raises, if any.
\<close>

fun terminal_guard :: "RequestState option \<Rightarrow> string \<Rightarrow> string list \<Rightarrow> exn option" where
  "terminal_guard cur state' [] = None"
| "terminal_guard cur state' (s # ss) =
     (case cur of
        None \<Rightarrow> terminal_guard cur state' ss
      | Some st \<Rightarrow>
          (case state_name st of
             Inl e \<Rightarrow> Some e
           | Inr n \<Rightarrow>
               if n = Some s \<and> state' \<noteq> s then
                 Some (ValidationError (''A '' @ s @ '' request cannot change states''))
               else terminal_guard cur state' ss))"

text \<open>
  \<open>add_state\<close> at the time \<open>now\<close> of the database, in the session \<open>d\<close>: what it raises
  or returns, and the session and the request as it leaves them. Its parameters \<open>state\<close>
  and \<open>state_reason\<close> are \<open>state'\<close> and \<open>state_reason'\<close> here, the plain names being the
  columns. Both exceptions are raised before anything is changed.

  The new \<open>RequestState\<close> is appended to \<open>self.states\<close>, added to the session and flushed at
  once; the list and the session hold the same object, so the model builds the row as the
  flush leaves it: with the next key of the table, the time of the insertion, and the key
  of the request. The flush also sends what else is staged: the staged images, and the
  request itself when it is new (it comes into the session with its \<open>RequestState\<close>).
\<close>

definition add_state ::
  "datetime \<Rightarrow> db \<Rightarrow> Request \<Rightarrow> string \<Rightarrow> string \<Rightarrow> (exn + unit) \<times> db \<times> Request" where
  "add_state now d self state' state_reason' =
     (case RequestStateMapping_of_name state' of
        None \<Rightarrow>
          (Inl (ValidationError
             (''The state '' @ [CHR 0x22] @ state' @ [CHR 0x22] @
              '' is invalid. It must be one of: '' @ join '', '' get_names @ ''.'')),
           d, self)
      | Some member \<Rightarrow>
          (let state_int = state_value member in
           case terminal_guard (Request_state d self) state' [''complete'', ''failed''] of
             Some e \<Rightarrow> (Inl e, d, self)
           | None \<Rightarrow>
               (let d1 = flush_images d;
                    key = (case req_id self of Some k \<Rightarrow> k | None \<Rightarrow> next_request_id d1);
                    d2 = (case req_id self of
                            Some k \<Rightarrow> d1
                          | None \<Rightarrow> d1\<lparr>next_request_id := Suc (next_request_id d1)\<rparr>);
                    request_state =
                      \<lparr>rs_id = next_request_state_id d2, request_id = key,
                       state = state_int, state_reason = state_reason', updated = now\<rparr>;
                    d3 = d2\<lparr>request_states := request_states d2 @ [request_state],
                            next_request_state_id := Suc (next_request_state_id d2)\<rparr>
                in (Inr (), d3,
                    self\<lparr>req_id := Some key,
                         states := states self @ [request_state],
                         request_state_id := Some (rs_id request_state)\<rparr>))))"



subsection \<open>\<open>Request.to_json\<close>\<close>

text \<open>
  JSON values, for the payload of \<open>from_json\<close> and the result of \<open>to_json\<close>; a \<open>dict\<close> keeps
  its keys in the order of insertion.
\<close>

datatype json =
  JNull | JBool bool | JInt int | JFloat real | JString string
  | JList "json list" | JDict "(string \<times> json) list"

text \<open>\<open>d[k] = v\<close>, and \<open>d.update(e)\<close> for a \<open>dict\<close> \<open>e\<close>.\<close>

fun setitem :: "string \<Rightarrow> 'v \<Rightarrow> (string \<times> 'v) list \<Rightarrow> (string \<times> 'v) list" where
  "setitem k v [] = [(k, v)]"
| "setitem k v ((k', v') # kvs) =
     (if k' = k then (k, v) # kvs else (k', v') # setitem k v kvs)"

fun dict_update :: "(string \<times> 'v) list \<Rightarrow> (string \<times> 'v) list \<Rightarrow> (string \<times> 'v) list" where
  "dict_update d [] = d"
| "dict_update d ((k, v) # kvs) = dict_update (setitem k v d) kvs"

text \<open>
  \<open>datetime.isoformat()\<close> of a naive \<open>datetime\<close>: the fields in decimal at their fixed
  widths, the microseconds only when they are not zero.
\<close>

fun zero_padded :: "nat \<Rightarrow> nat \<Rightarrow> string" where
  "zero_padded 0 n = []"
| "zero_padded (Suc w) n = zero_padded w (n div 10) @ [''0123456789'' ! (n mod 10)]"

definition isoformat :: "datetime \<Rightarrow> string" where
  "isoformat t =
     zero_padded 4 (year t) @ ''-'' @ zero_padded 2 (month t) @ ''-'' @ zero_padded 2 (day t) @
     ''T'' @ zero_padded 2 (hour t) @ '':'' @ zero_padded 2 (minute t) @ '':'' @
     zero_padded 2 (second t) @
     (if microsecond t = 0 then [] else ''.'' @ zero_padded 6 (microsecond t))"

text \<open>The inner function \<open>_state_to_json\<close>.\<close>

definition state_to_json :: "RequestState \<Rightarrow> exn + (string \<times> json) list" where
  "state_to_json st =
     (case RequestStateMapping_of_value (state st) of
        None \<Rightarrow> Inl ValueError
      | Some e \<Rightarrow>
          Inr [(''state'', JString (state_member_name e)),
               (''state_reason'', JString (state_reason st)),
               (''updated'', JString (isoformat (updated st) @ ''Z''))])"

text \<open>\<^verbatim>\<open>[_state_to_json(state) for state in self.states]\<close>.\<close>

fun states_to_json :: "RequestState list \<Rightarrow> exn + (string \<times> json) list list" where
  "states_to_json [] = Inr []"
| "states_to_json (st # sts) =
     (case state_to_json st of
        Inl e \<Rightarrow> Inl e
      | Inr j \<Rightarrow> (case states_to_json sts of Inl e \<Rightarrow> Inl e | Inr js \<Rightarrow> Inr (j # js)))"

text \<open>
  \<^verbatim>\<open>getattr(image, 'pull_specification', None)\<close> for an optional image of the request.
\<close>

definition pull_specification_or_None :: "db \<Rightarrow> nat option \<Rightarrow> json" where
  "pull_specification_or_None d r =
     (case r of None \<Rightarrow> JNull | Some i \<Rightarrow> JString (pull_specification (images d ! i)))"

text \<open>
  The \<open>dict\<close> \<open>rv\<close> with which \<open>to_json\<close> starts. The references of a request are
  references to images of the session, so \<open>images d ! i\<close> is the image that the request
  holds.
\<close>

definition to_json_fields :: "db \<Rightarrow> Request \<Rightarrow> (string \<times> json) list" where
  "to_json_fields d self =
     [(''id'', case req_id self of None \<Rightarrow> JNull | Some k \<Rightarrow> JInt (int k)),
      (''arches'',
         JList (map (\<lambda>arch. JString (name arch))
           (case index_image self of None \<Rightarrow> [] | Some i \<Rightarrow> architectures (images d ! i)))),
      (''binary_image'', JString (pull_specification (images d ! binary_image self))),
      (''binary_image_resolved'', pull_specification_or_None d (binary_image_resolved self)),
      (''bundles'',
         JList (map (\<lambda>bundle. JString (pull_specification (images d ! bundle))) (bundles self))),
      (''from_index'', pull_specification_or_None d (from_index self)),
      (''from_index_resolved'', pull_specification_or_None d (from_index_resolved self)),
      (''index_image'', pull_specification_or_None d (index_image self)),
      (''user'', case user self of None \<Rightarrow> JNull | Some u \<Rightarrow> JString (username u))]"

text \<open>
  \<open>to_json\<close>. \<open>states[0]\<close> raises \<open>IndexError\<close> on an empty history; without \<open>verbose\<close>, a
  request with no current state raises \<open>AttributeError\<close>.
\<close>

definition to_json :: "db \<Rightarrow> Request \<Rightarrow> bool \<Rightarrow> exn + (string \<times> json) list" where
  "to_json d self verbose =
     (let rv = to_json_fields d self
      in if verbose then
           (case states_to_json (states self) of
              Inl e \<Rightarrow> Inl e
            | Inr js \<Rightarrow>
                (let states = rev js;
                     rv = setitem ''state_history'' (JList (map JDict states)) rv
                 in case states of
                      [] \<Rightarrow> Inl IndexError
                    | latest_state # _ \<Rightarrow> Inr (dict_update rv latest_state)))
         else
           (case Request_state d self of
              None \<Rightarrow> Inl AttributeError
            | Some st \<Rightarrow>
                (case state_to_json st of
                   Inl e \<Rightarrow> Inl e
                 | Inr j \<Rightarrow> Inr (dict_update rv j))))"

subsection \<open>\<open>Request.from_json\<close>\<close>

text \<open>
  Truth of a JSON value in Python: \<open>None\<close>, \<open>False\<close>, zero, and the empty string, list and
  \<open>dict\<close> are false. \<open>isinstance(v, str)\<close> is \<open>is_str\<close>.
\<close>

fun truthy :: "json \<Rightarrow> bool" where
  "truthy JNull = False"
| "truthy (JBool b) = b"
| "truthy (JInt i) = (i \<noteq> 0)"
| "truthy (JFloat x) = (x \<noteq> 0)"
| "truthy (JString s) = (s \<noteq> [])"
| "truthy (JList vs) = (vs \<noteq> [])"
| "truthy (JDict kvs) = (kvs \<noteq> [])"

fun is_str :: "json \<Rightarrow> bool" where
  "is_str (JString s) = True"
| "is_str v = False"

text \<open>
  The payload \<open>kwargs\<close> is a \<open>dict\<close>: the list of its items. \<open>kwargs.get(k)\<close> is
  \<open>map_of kwargs k\<close>, and \<open>None\<close> is not true, so \<open>kwargs.get(k)\<close> is true when \<open>k\<close> is a key
  with a true value.
\<close>

definition get_truthy :: "(string \<times> json) list \<Rightarrow> string \<Rightarrow> bool" where
  "get_truthy kwargs k = (case map_of kwargs k of None \<Rightarrow> False | Some v \<Rightarrow> truthy v)"

definition required_params :: "string list" where
  "required_params = [''bundles'', ''binary_image'']"

definition optional_params :: "string list" where
  "optional_params = [''from_index'', ''add_arches'', ''cnr_token'']"

text \<open>The strings of a list of JSON values that are all strings.\<close>

fun the_strings :: "json list \<Rightarrow> string list" where
  "the_strings [] = []"
| "the_strings (JString s # vs) = s # the_strings vs"
| "the_strings (v # vs) = the_strings vs"

text \<open>
  The checks of \<open>add_arches\<close>, \<open>bundles\<close> and \<open>binary_image\<close>, each on the value popped from
  the copy of the payload. A check that passes gives the value at the type it has been
  found to have.
\<close>

definition check_add_arches :: "json \<Rightarrow> exn + string list" where
  "check_add_arches add_arches =
     (case add_arches of
        JList arches \<Rightarrow>
          if list_ex (\<lambda>arch. \<not> truthy arch \<or> \<not> is_str arch) arches then
            Inl (ValidationError ([CHR 0x22] @ ''add_arches'' @ [CHR 0x22] @
                   '' should be an array of strings''))
          else Inr (the_strings arches)
      | _ \<Rightarrow>
          Inl (ValidationError ([CHR 0x22] @ ''add_arches'' @ [CHR 0x22] @
                 '' should be an array of strings'')))"

definition check_bundles :: "json \<Rightarrow> exn + string list" where
  "check_bundles bundles' =
     (case bundles' of
        JList bs \<Rightarrow>
          if length bs = 0 \<or> list_ex (\<lambda>bundle. \<not> truthy bundle \<or> \<not> is_str bundle) bs then
            Inl (ValidationError ([CHR 0x22] @ ''bundles'' @ [CHR 0x22] @
                   '' should be a non-empty array of strings''))
          else Inr (the_strings bs)
      | _ \<Rightarrow>
          Inl (ValidationError ([CHR 0x22] @ ''bundles'' @ [CHR 0x22] @
                 '' should be a non-empty array of strings'')))"

definition check_binary_image :: "json \<Rightarrow> exn + string" where
  "check_binary_image binary_image' =
     (case binary_image' of
        JString s \<Rightarrow>
          if s = [] then
            Inl (ValidationError ([CHR 0x22] @ ''binary_image'' @ [CHR 0x22] @
                   '' should be a non-empty string''))
          else Inr s
      | _ \<Rightarrow>
          Inl (ValidationError ([CHR 0x22] @ ''binary_image'' @ [CHR 0x22] @
                 '' should be a non-empty string'')))"

text \<open>
  The part of \<open>from_json\<close> before the first image is looked up: it reads the payload only.
  The copy \<open>request_kwargs\<close> of the payload changes by \<open>pop\<close> alone, so what is popped for a
  key is what the payload has for it; \<open>pop('add_arches', [])\<close> gives the empty list for a
  payload without the key, and \<open>pop('bundles')\<close> would raise \<open>KeyError\<close> without the key,
  which the first check has excluded. The result is the checked \<open>bundles\<close> and
  \<open>binary_image\<close>; the checked \<open>add_arches\<close> are used no more.

  \<open>one_of_message\<close> is the message \<^verbatim>\<open>One of "from_index" or "add_arches" must be
  specified\<close>. The two messages that list parameters join a Python \<open>set\<close>, whose order of iteration is
  not fixed; the model lists them in the order of \<open>required_params\<close> and of the payload.
\<close>

definition one_of_message :: string where
  "one_of_message =
     ''One of '' @ [CHR 0x22] @ ''from_index'' @ [CHR 0x22] @ '' or '' @
     [CHR 0x22] @ ''add_arches'' @ [CHR 0x22] @ '' must be specified''"

definition from_json_checks :: "(string \<times> json) list \<Rightarrow> exn + string list \<times> string" where
  "from_json_checks kwargs =
     (let missing_params =
            filter (\<lambda>p. p \<notin> fst ` set kwargs \<and> p \<notin> set optional_params) required_params
      in if missing_params \<noteq> [] then
           Inl (ValidationError
                  (''Missing required parameter(s): '' @ join '', '' missing_params))
         else
           (let invalid_params =
                  filter (\<lambda>k. k \<notin> set required_params \<and> k \<notin> set optional_params)
                    (remdups (map fst kwargs))
            in if invalid_params \<noteq> [] then
                 Inl (ValidationError
                        (''The following parameters are invalid: '' @ join '', '' invalid_params))
               else if \<not> get_truthy kwargs ''from_index'' \<and> \<not> get_truthy kwargs ''add_arches'' then
                 Inl (ValidationError one_of_message)
               else
                 (case check_add_arches
                         (case map_of kwargs ''add_arches'' of None \<Rightarrow> JList [] | Some v \<Rightarrow> v) of
                    Inl e \<Rightarrow> Inl e
                  | Inr add_arches \<Rightarrow>
                      (case map_of kwargs ''bundles'' of
                         None \<Rightarrow> Inl KeyError
                       | Some bundles' \<Rightarrow>
                           (case check_bundles bundles' of
                              Inl e \<Rightarrow> Inl e
                            | Inr bs \<Rightarrow>
                                (case map_of kwargs ''binary_image'' of
                                   None \<Rightarrow> Inl KeyError
                                 | Some binary_image' \<Rightarrow>
                                     (case check_binary_image binary_image' of
                                        Inl e \<Rightarrow> Inl e
                                      | Inr b \<Rightarrow> Inr (bs, b))))))))"

text \<open>
  \<^verbatim>\<open>[Image.get_or_create(pull_specification=bundle) for bundle in bundles]\<close>: the
  references in the order of the list; an exception leaves the session with the images
  staged before it.
\<close>

fun get_or_create_all :: "db \<Rightarrow> string list \<Rightarrow> (exn + nat list) \<times> db" where
  "get_or_create_all d [] = (Inr [], d)"
| "get_or_create_all d (s # ss) =
     (case get_or_create d s of
        (Inl e, d') \<Rightarrow> (Inl e, d')
      | (Inr i, d') \<Rightarrow>
          (case get_or_create_all d' ss of
             (Inl e, d'') \<Rightarrow> (Inl e, d'')
           | (Inr refs, d'') \<Rightarrow> (Inr (i # refs), d'')))"

text \<open>
  The check of the loop over \<open>from_index\<close> and \<open>cnr_token\<close>: a value that is true must be a
  string; the result is the string, or \<open>None\<close> for a value that is absent or not true.
\<close>

definition check_optional_str :: "string \<Rightarrow> json option \<Rightarrow> exn + string option" where
  "check_optional_str param param_value =
     (case param_value of
        None \<Rightarrow> Inr None
      | Some v \<Rightarrow>
          if truthy v then
            (case v of
               JString s \<Rightarrow> Inr (Some s)
             | _ \<Rightarrow> Inl (ValidationError
                         ([CHR 0x22] @ param @ [CHR 0x22] @ '' must be a string'')))
          else Inr None)"

text \<open>
  \<open>from_json\<close> for the payload \<open>kwargs\<close>, with the \<open>current_user\<close> of the request (\<open>None\<close>
  when \<open>current_user.is_authenticated\<close> is false) and the time \<open>now\<close> of the flush in
  \<open>add_state\<close>: what it raises or returns, and the session as it leaves it. The request is
  built from \<open>bundles\<close>, \<open>binary_image\<close>, \<open>from_index\<close> (when it has a true value), \<open>user\<close>
  and \<open>type\<close>; the other attributes have their defaults.
\<close>

definition from_json ::
  "User option \<Rightarrow> datetime \<Rightarrow> db \<Rightarrow> (string \<times> json) list \<Rightarrow> (exn + Request) \<times> db" where
  "from_json current_user now d kwargs =
     (case from_json_checks kwargs of
        Inl e \<Rightarrow> (Inl e, d)
      | Inr (bs, b) \<Rightarrow>
     (case get_or_create_all d bs of
        (Inl e, d1) \<Rightarrow> (Inl e, d1)
      | (Inr bundle_refs, d1) \<Rightarrow>
     (case get_or_create d1 b of
        (Inl e, d2) \<Rightarrow> (Inl e, d2)
      | (Inr binary_ref, d2) \<Rightarrow>
     (case check_optional_str ''from_index'' (map_of kwargs ''from_index'') of
        Inl e \<Rightarrow> (Inl e, d2)
      | Inr from_index_value \<Rightarrow>
     (case (case from_index_value of
              None \<Rightarrow> (Inr None, d2)
            | Some s \<Rightarrow>
                (case get_or_create d2 s of
                   (Inl e, d3) \<Rightarrow> (Inl e, d3)
                 | (Inr i, d3) \<Rightarrow> (Inr (Some i), d3))) of
        (Inl e, d3) \<Rightarrow> (Inl e, d3)
      | (Inr from_index_ref, d3) \<Rightarrow>
     (case check_optional_str ''cnr_token'' (map_of kwargs ''cnr_token'') of
        Inl e \<Rightarrow> (Inl e, d3)
      | Inr cnr_token \<Rightarrow>
          (let request =
                 \<lparr>req_id = None, binary_image = binary_ref, binary_image_resolved = None,
                  bundles = bundle_refs, from_index = from_index_ref,
                  from_index_resolved = None, index_image = None, request_state_id = None,
                  request_type = type_value add, user = current_user, states = []\<rparr>
           in case add_state now d3 request ''in_progress'' ''The request was initiated'' of
                (Inl e, d4, request') \<Rightarrow> (Inl e, d4)
              | (Inr u, d4, request') \<Rightarrow> (Inr request', d4))))))))"

subsection \<open>Example session and request\<close>

text \<open>A session with one flushed image and nothing staged.\<close>

definition example_db :: db where
  "example_db =
     \<lparr>images = [\<lparr>image_id = Some 1, pull_specification = ''quay.io/ns/opm:v1'', architectures = []\<rparr>],
      next_image_id = 2, next_request_id = 1, request_states = [], next_request_state_id = 1\<rparr>"

text \<open>A request that has no state yet, with the image of the session as its binary image.\<close>

definition fresh_request :: Request where
  "fresh_request =
     \<lparr>req_id = None, binary_image = 0, binary_image_resolved = None, bundles = [],
      from_index = None, from_index_resolved = None, index_image = None,
      request_state_id = None, request_type = 1, user = None, states = []\<rparr>"

definition t0 :: datetime where
  "t0 = \<lparr>year = 2020, month = 3, day = 9, hour = 14, minute = 5, second = 7, microsecond = 0\<rparr>"

definition t1 :: datetime where
  "t1 = \<lparr>year = 2020, month = 3, day = 9, hour = 14, minute = 6, second = 30, microsecond = 1500\<rparr>"

text \<open>
  The session and the request after \<open>in_progress\<close> at \<open>t0\<close> and \<open>complete\<close> at \<open>t1\<close>.
\<close>

definition row1 :: RequestState where
  "row1 = \<lparr>rs_id = 1, request_id = 1, state = 1,
            state_reason = ''The request was initiated'', updated = t0\<rparr>"

definition row2 :: RequestState where
  "row2 = \<lparr>rs_id = 2, request_id = 1, state = 2, state_reason = ''done'', updated = t1\<rparr>"

definition done_db :: db where
  "done_db = example_db\<lparr>next_request_id := 2, request_states := [row1, row2],
                        next_request_state_id := 3\<rparr>"

definition done_request :: Request where
  "done_request = fresh_request\<lparr>req_id := Some 1, request_state_id := Some 2,
                                states := [row1, row2]\<rparr>"

text \<open>A payload with both \<open>from_index\<close> and \<open>add_arches\<close>, and one with neither.\<close>

definition payload_both :: "(string \<times> json) list" where
  "payload_both =
     [(''bundles'', JList [JString ''quay.io/ns/bundle:v1'']),
      (''binary_image'', JString ''quay.io/ns/opm:v1''),
      (''from_index'', JString ''quay.io/ns/index:v1''),
      (''add_arches'', JList [JString ''amd64''])]"

definition payload_neither :: "(string \<times> json) list" where
  "payload_neither =
     [(''bundles'', JList [JString ''quay.io/ns/bundle:v1'']),
      (''binary_image'', JString ''quay.io/ns/opm:v1'')]"

definition payload_from_index :: "(string \<times> json) list" where
  "payload_from_index =
     [(''bundles'', JList [JString ''quay.io/ns/bundle:v1'']),
      (''binary_image'', JString ''quay.io/ns/opm:v1''),
      (''from_index'', JString ''quay.io/ns/index:v1'')]"

text \<open>What \<open>from_json\<close> builds from these payloads at \<open>t0\<close> in \<open>example_db\<close>.\<close>

definition created_request :: Request where
  "created_request =
     \<lparr>req_id = Some 1, binary_image = 0, binary_image_resolved = None, bundles = [1],
      from_index = Some 2, from_index_resolved = None, index_image = None,
      request_state_id = Some 1, request_type = 1, user = None, states = [row1]\<rparr>"

definition created_db :: db where
  "created_db =
     \<lparr>images =
        [\<lparr>image_id = Some 1, pull_specification = ''quay.io/ns/opm:v1'', architectures = []\<rparr>,
         \<lparr>image_id = Some 2, pull_specification = ''quay.io/ns/bundle:v1'', architectures = []\<rparr>,
         \<lparr>image_id = Some 3, pull_specification = ''quay.io/ns/index:v1'', architectures = []\<rparr>],
      next_image_id = 4, next_request_id = 2, request_states = [row1],
      next_request_state_id = 2\<rparr>"

section \<open>Properties of \<open>retry\<close>\<close>

lemma count_level_Some:
  "count_level l (Some rs) = length (filter (\<lambda>r. levelname r = l) rs)"
  by (simp add: count_level_def)

lemma count_level_logger_exception:
  "count_level l (logger_exception logger n e) =
     count_level l logger + (if logger \<noteq> None \<and> l = ERROR then 1 else 0)"
  by (cases logger) (auto simp: count_level_def logger_exception_def)

text \<open>
  Claim C4. When every invocation of the wrapped function raises an exception of the class
  \<open>wait_on\<close>, \<open>retry\<close> with \<open>attempts = 3\<close> and a logger invokes the function exactly three
  times, each in the world the previous invocation left; the logger receives exactly two
  more records of level WARNING (for the first and the second failure) and one more of level
  ERROR, in that order; and what is raised in the end is the exception of the third
  invocation itself.
\<close>

theorem retry_exhaustion:
  assumes raises: "\<forall>s. \<exists>e s'. fn_call func args s = (Inl e, s') \<and> wait_on e"
  shows "\<exists>e1 s1 e2 s2 e3 s3.
           fn_call func args s = (Inl e1, s1) \<and>
           fn_call func args s1 = (Inl e2, s2) \<and>
           fn_call func args s2 = (Inl e3, s3) \<and>
           retry 3 wait_on (Some rs) func args s =
             \<lparr>result = Inl e3, world = s3,
              logged = Some (rs @ [Log_warning e1 (fn_module func @ ''.'' @ fn_name func),
                                   Log_warning e2 (fn_module func @ ''.'' @ fn_name func),
                                   Log_exception 3 e3]),
              invocations = 3\<rparr> \<and>
           count_level WARNING (logged (retry 3 wait_on (Some rs) func args s)) =
             count_level WARNING (Some rs) + 2 \<and>
           count_level ERROR (logged (retry 3 wait_on (Some rs) func args s)) =
             count_level ERROR (Some rs) + 1"
proof -
  from raises obtain e1 s1 where c1: "fn_call func args s = (Inl e1, s1)" and w1: "wait_on e1"
    by blast
  from raises obtain e2 s2 where c2: "fn_call func args s1 = (Inl e2, s2)" and w2: "wait_on e2"
    by blast
  from raises obtain e3 s3 where c3: "fn_call func args s2 = (Inl e3, s3)" and w3: "wait_on e3"
    by blast
  have r: "retry 3 wait_on (Some rs) func args s =
             \<lparr>result = Inl e3, world = s3,
              logged = Some (rs @ [Log_warning e1 (fn_module func @ ''.'' @ fn_name func),
                                   Log_warning e2 (fn_module func @ ''.'' @ fn_name func),
                                   Log_exception 3 e3]),
              invocations = 3\<rparr>"
    by (simp add: retry_def c1 c2 c3 w1 w2 w3 logger_warning_def logger_exception_def
        numeral_3_eq_3)
  show ?thesis
    using c1 c2 c3 r by (simp add: count_level_Some)
qed

theorem retry_exhaustion_witness:
  "(\<forall>s. \<exists>e s'. fn_call failing_counter () s = (Inl e, s') \<and> (\<lambda>e. True) e) \<and>
   retry 3 (\<lambda>e. True) (Some []) failing_counter () 0 =
     \<lparr>result = Inl 2, world = 3,
      logged = Some [Log_warning 0 ''m.f'', Log_warning 1 ''m.f'', Log_exception 3 2],
      invocations = 3\<rparr> \<and>
   count_level WARNING (logged (retry 3 (\<lambda>e. True) (Some []) failing_counter () 0)) = 2 \<and>
   count_level ERROR (logged (retry 3 (\<lambda>e. True) (Some []) failing_counter () 0)) = 1"
proof -
  have h: "\<forall>s. \<exists>e s'. fn_call failing_counter () s = (Inl e, s') \<and> (\<lambda>e. True) e"
    by (simp add: failing_counter_def)
  from retry_exhaustion [OF h, of 0 "[]"] show ?thesis
    by (simp add: failing_counter_def count_level_Some numeral_3_eq_3)
qed

text \<open>
  Claim C10. For every \<open>attempts \<le> 1\<close> (zero and negative values too) the function is
  invoked exactly once. When that invocation returns, \<open>retry\<close> returns its value and logs
  nothing. When it raises an exception of the class \<open>wait_on\<close>, \<open>retry\<close> raises that
  exception after the single invocation, with no record of level WARNING and, when there
  is a logger, the one record of level ERROR.
\<close>

theorem retry_single_attempt:
  assumes "attempts \<le> 1"
  shows "(fn_call func args s = (Inr v, s') \<longrightarrow>
            retry attempts wait_on logger func args s =
              \<lparr>result = Inr v, world = s', logged = logger, invocations = 1\<rparr>) \<and>
         (fn_call func args s = (Inl e, s') \<and> wait_on e \<longrightarrow>
            retry attempts wait_on logger func args s =
              \<lparr>result = Inl e, world = s', logged = logger_exception logger attempts e,
               invocations = 1\<rparr> \<and>
            count_level WARNING (logged (retry attempts wait_on logger func args s)) =
              count_level WARNING logger \<and>
            count_level ERROR (logged (retry attempts wait_on logger func args s)) =
              count_level ERROR logger + (if logger \<noteq> None then 1 else 0))"
  using assms by (simp add: retry_def count_level_logger_exception)

theorem retry_single_attempt_witness:
  "(-2::int) \<le> 1 \<and>
   fn_call flaky () 7 = (Inr 7, 8) \<and>
   retry (-2) (\<lambda>e. True) (Some []) flaky () 7 =
     \<lparr>result = Inr 7, world = 8, logged = Some [], invocations = 1\<rparr> \<and>
   fn_call flaky () 0 = (Inl ''busy'', 1) \<and>
   retry (-2) (\<lambda>e. True) (Some []) flaky () 0 =
     \<lparr>result = Inl ''busy'', world = 1, logged = Some [Log_exception (-2) ''busy''],
      invocations = 1\<rparr> \<and>
   count_level WARNING (logged (retry (-2) (\<lambda>e. True) (Some []) flaky () 0)) = 0 \<and>
   count_level ERROR (logged (retry (-2) (\<lambda>e. True) (Some []) flaky () 0)) = 1"
proof -
  have h: "(-2::int) \<le> 1" by simp
  have a: "fn_call flaky () 7 = (Inr 7, 8)" and b: "fn_call flaky () 0 = (Inl ''busy'', 1)"
    by (simp_all add: flaky_def)
  from retry_single_attempt [OF h, where func = flaky and args = "()" and s = 7 and v = 7
         and s' = 8 and wait_on = "\<lambda>e. True" and logger = "Some []"]
       retry_single_attempt [OF h, where func = flaky and args = "()" and s = 0
         and e = "''busy''" and s' = 1 and wait_on = "\<lambda>e. True" and logger = "Some []"]
       a b
  show ?thesis
    by (simp add: logger_exception_def count_level_Some)
qed

section \<open>Properties of \<open>run_cmd\<close>\<close>











lemma info_line_no_match: "re_match_fatal ''time=1 level=info msg=adding'' = None"
  by (simp add: re_match_fatal_def at_end_def)



section \<open>Properties of the image catalog\<close>

lemma assign_image_ids_specs:
  "map pull_specification (fst (assign_image_ids n ims)) = map pull_specification ims"
  by (induction ims arbitrary: n) (simp_all add: split_beta split: option.splits)

lemma flush_images_specs:
  "map pull_specification (images (flush_images d)) = map pull_specification (images d)"
  using assign_image_ids_specs [of "next_image_id d" "images d"]
  by (simp add: flush_images_def split_beta)

lemma find_index_map:
  "find_index (\<lambda>x. f x = s) xs = find_index (\<lambda>y. y = s) (map f xs)"
  by (induction xs) auto

lemma find_index_Some:
  "find_index P xs = Some i \<Longrightarrow> i < length xs \<and> P (xs ! i)"
  by (induction xs arbitrary: i) (auto split: if_splits)

lemma find_index_None: "find_index P xs = None \<longleftrightarrow> (\<forall>x \<in> set xs. \<not> P x)"
  by (induction xs) auto

lemma find_index_snoc:
  "find_index P xs = None \<Longrightarrow> P y \<Longrightarrow> find_index P (xs @ [y]) = Some (length xs)"
  by (induction xs) (auto split: if_splits)

lemma count_images_specs:
  "count_images d s = length (filter (\<lambda>y. y = s) (map pull_specification (images d)))"
  by (simp add: count_images_def filter_map comp_def)

lemma filter_empty_length: "(\<forall>x \<in> set xs. \<not> P x) \<Longrightarrow> length (filter P xs) = 0"
  by (induction xs) auto

lemma filter_nonempty_length: "x \<in> set xs \<Longrightarrow> P x \<Longrightarrow> 1 \<le> length (filter P xs)"
  by (induction xs) auto

lemma distinct_filter_eq_length: "distinct xs \<Longrightarrow> length (filter (\<lambda>y. y = s) xs) \<le> 1"
proof (induction xs)
  case Nil
  then show ?case by simp
next
  case (Cons x xs)
  show ?case
  proof (cases "x = s")
    case True
    with Cons.prems have "\<forall>y \<in> set xs. \<not> y = s" by auto
    then have "length (filter (\<lambda>y. y = s) xs) = 0" by (rule filter_empty_length)
    with True show ?thesis by simp
  next
    case False
    with Cons show ?thesis by simp
  qed
qed


lemma flush_images_length: "length (images (flush_images d)) = length (images d)"
proof -
  have "length (map pull_specification (images (flush_images d))) =
        length (map pull_specification (images d))"
    by (simp only: flush_images_specs)
  then show ?thesis by simp
qed

lemma find_index_flush:
  "find_index (\<lambda>i. pull_specification i = s) (images (flush_images d)) =
     find_index (\<lambda>y. y = s) (map pull_specification (images d))"
  using find_index_map [of pull_specification s "images (flush_images d)"]
  by (simp only: flush_images_specs)

lemma get_or_create_found:
  assumes "CHR ''@'' \<in> set s \<or> CHR '':'' \<in> set s"
    and "find_index (\<lambda>y. y = s) (map pull_specification (images d)) = Some i"
  shows "get_or_create d s = (Inr i, flush_images d)"
proof -
  have found: "find_index (\<lambda>i. pull_specification i = s) (images (flush_images d)) = Some i"
    using assms(2) by (simp only: find_index_flush)
  have tagged: "\<not> (CHR ''@'' \<notin> set s \<and> CHR '':'' \<notin> set s)"
    using assms(1) by blast
  show ?thesis
    by (simp only: get_or_create_def tagged if_False Let_def found option.case)
qed

lemma get_or_create_new:
  assumes "CHR ''@'' \<in> set s \<or> CHR '':'' \<in> set s"
    and "find_index (\<lambda>y. y = s) (map pull_specification (images d)) = None"
  shows "get_or_create d s =
           (Inr (length (images d)),
            (flush_images d)\<lparr>images := images (flush_images d) @
               [\<lparr>image_id = None, pull_specification = s, architectures = []\<rparr>]\<rparr>)"
proof -
  have absent: "find_index (\<lambda>i. pull_specification i = s) (images (flush_images d)) = None"
    using assms(2) by (simp only: find_index_flush)
  have tagged: "\<not> (CHR ''@'' \<notin> set s \<and> CHR '':'' \<notin> set s)"
    using assms(1) by blast
  show ?thesis
    by (simp only: get_or_create_def tagged if_False Let_def absent option.case
        flush_images_length)
qed

lemma find_index_mem: "find_index P xs = Some i \<Longrightarrow> \<exists>x \<in> set xs. P x"
  by (induction xs arbitrary: i) (auto split: if_splits)

lemma get_or_create_first:
  assumes "CHR ''@'' \<in> set s \<or> CHR '':'' \<in> set s"
  shows "\<exists>i d1. get_or_create d s = (Inr i, d1) \<and>
           find_index (\<lambda>y. y = s) (map pull_specification (images d1)) = Some i \<and>
           (s \<in> set (map pull_specification (images d)) \<and>
              map pull_specification (images d1) = map pull_specification (images d) \<or>
            s \<notin> set (map pull_specification (images d)) \<and>
              map pull_specification (images d1) = map pull_specification (images d) @ [s])"
proof (cases "find_index (\<lambda>y. y = s) (map pull_specification (images d))")
  case None
  let ?d1 = "(flush_images d)\<lparr>images := images (flush_images d) @
               [\<lparr>image_id = None, pull_specification = s, architectures = []\<rparr>]\<rparr>"
  have specs: "map pull_specification (images ?d1) = map pull_specification (images d) @ [s]"
    by (simp add: flush_images_specs)
  have "find_index (\<lambda>y. y = s) (map pull_specification (images d) @ [s])
          = Some (length (map pull_specification (images d)))"
    using None by (rule find_index_snoc) simp
  then have "find_index (\<lambda>y. y = s) (map pull_specification (images ?d1))
          = Some (length (images d))"
    by (simp only: specs length_map)
  moreover have "s \<notin> set (map pull_specification (images d))"
    using None unfolding find_index_None by blast
  ultimately show ?thesis
    using get_or_create_new [OF assms None] specs by blast
next
  case (Some i)
  have "s \<in> set (map pull_specification (images d))"
    using find_index_mem [OF Some] by blast
  then show ?thesis
    using get_or_create_found [OF assms Some] Some flush_images_specs [of d] by auto
qed

lemma count_images_append:
  "map pull_specification (images d1) = map pull_specification (images d) @ [s] \<Longrightarrow>
     count_images d1 s = Suc (count_images d s)"
  by (simp add: count_images_specs)

lemma count_images_same:
  "map pull_specification (images d1) = map pull_specification (images d) \<Longrightarrow>
     count_images d1 s = count_images d s"
  by (simp add: count_images_specs)

text \<open>
  Claim C7. For a string with neither \<open>@\<close> nor \<open>:\<close>, \<open>get_or_create\<close> raises
  \<open>ValidationError\<close> and leaves the session as it was: no image is created or staged, and
  nothing is flushed.
\<close>

theorem get_or_create_untagged:
  assumes "CHR ''@'' \<notin> set s" and "CHR '':'' \<notin> set s"
  shows "get_or_create d s =
           (Inl (ValidationError (''Image '' @ s @ '' should have a tag or a digest specified.'')), d)"
  using assms by (simp add: get_or_create_def)

theorem get_or_create_untagged_witness:
  "CHR ''@'' \<notin> set ''myimage'' \<and> CHR '':'' \<notin> set ''myimage'' \<and>
   get_or_create example_db ''myimage'' =
     (Inl (ValidationError ''Image myimage should have a tag or a digest specified.''), example_db)"
proof -
  have h: "CHR ''@'' \<notin> set ''myimage''" and h': "CHR '':'' \<notin> set ''myimage''"
    by simp_all
  from get_or_create_untagged [OF h h', of example_db] h h' show ?thesis
    by simp
qed

text \<open>
  Claim C8. For a string \<open>s\<close> with a tag or a digest, two calls of \<open>get_or_create\<close> in a row
  return the same reference \<open>i\<close>, which is an image of the session with the pull
  specification \<open>s\<close>. The first call adds one image with that pull specification when the
  session has none and adds none otherwise; the second call adds none. So a session in
  which pull specifications are unique stays so, and has exactly one image for \<open>s\<close> after
  each call.
\<close>

theorem get_or_create_idempotent:
  assumes "CHR ''@'' \<in> set s \<or> CHR '':'' \<in> set s"
  shows "\<exists>i d1 d2.
           get_or_create d s = (Inr i, d1) \<and> get_or_create d1 s = (Inr i, d2) \<and>
           i < length (images d1) \<and> pull_specification (images d1 ! i) = s \<and>
           i < length (images d2) \<and> pull_specification (images d2 ! i) = s \<and>
           count_images d1 s = max 1 (count_images d s) \<and>
           count_images d2 s = count_images d1 s \<and>
           map pull_specification (images d2) = map pull_specification (images d1) \<and>
           (distinct (map pull_specification (images d)) \<longrightarrow>
              distinct (map pull_specification (images d1)) \<and> count_images d1 s = 1)"
proof -
  from get_or_create_first [OF assms, of d] obtain i d1
    where g1: "get_or_create d s = (Inr i, d1)"
      and i1: "find_index (\<lambda>y. y = s) (map pull_specification (images d1)) = Some i"
      and s1: "s \<in> set (map pull_specification (images d)) \<and>
                 map pull_specification (images d1) = map pull_specification (images d) \<or>
               s \<notin> set (map pull_specification (images d)) \<and>
                 map pull_specification (images d1) = map pull_specification (images d) @ [s]"
    by blast
  have in1: "s \<in> set (map pull_specification (images d1))"
    using find_index_mem [OF i1] by blast
  from get_or_create_first [OF assms, of d1] obtain j d2
    where g2': "get_or_create d1 s = (Inr j, d2)"
      and s2: "map pull_specification (images d2) = map pull_specification (images d1)"
    using in1 by blast
  have "get_or_create d1 s = (Inr i, flush_images d1)"
    using assms i1 by (rule get_or_create_found)
  with g2' have g2: "get_or_create d1 s = (Inr i, d2)" by simp
  have p1: "i < length (images d1)" "pull_specification (images d1 ! i) = s"
    using find_index_Some [OF i1] by auto
  have p2: "i < length (images d2)" "pull_specification (images d2 ! i) = s"
  proof -
    have "i < length (map pull_specification (images d2))"
      and "map pull_specification (images d2) ! i = s"
      using find_index_Some [OF i1] by (simp_all only: s2)
    then show "i < length (images d2)" "pull_specification (images d2 ! i) = s"
      by simp_all
  qed
  have c1: "count_images d1 s = max 1 (count_images d s)"
    using s1
  proof
    assume a: "s \<in> set (map pull_specification (images d)) \<and>
                 map pull_specification (images d1) = map pull_specification (images d)"
    from a have "s \<in> set (map pull_specification (images d))" ..
    then have "1 \<le> length (filter (\<lambda>y. y = s) (map pull_specification (images d)))"
      by (rule filter_nonempty_length) (rule refl)
    then have "1 \<le> count_images d s"
      by (simp only: count_images_specs)
    moreover from a have "count_images d1 s = count_images d s"
      by (intro count_images_same) simp
    ultimately show ?thesis by simp
  next
    assume a: "s \<notin> set (map pull_specification (images d)) \<and>
                 map pull_specification (images d1) = map pull_specification (images d) @ [s]"
    from a have "\<forall>y \<in> set (map pull_specification (images d)). \<not> y = s" by blast
    then have "length (filter (\<lambda>y. y = s) (map pull_specification (images d))) = 0"
      by (rule filter_empty_length)
    then have "count_images d s = 0"
      by (simp only: count_images_specs)
    moreover from a have "count_images d1 s = Suc (count_images d s)"
      by (intro count_images_append) simp
    ultimately show ?thesis by simp
  qed
  have c2: "count_images d2 s = count_images d1 s"
    using s2 by (rule count_images_same)
  have u: "distinct (map pull_specification (images d)) \<longrightarrow>
              distinct (map pull_specification (images d1)) \<and> count_images d1 s = 1"
  proof (intro impI conjI)
    assume dist: "distinct (map pull_specification (images d))"
    from s1 dist show "distinct (map pull_specification (images d1))" by auto
    from dist have "count_images d s \<le> 1"
      unfolding count_images_specs by (rule distinct_filter_eq_length)
    with c1 show "count_images d1 s = 1" by simp
  qed
  from g1 g2 p1 p2 c1 c2 s2 u show ?thesis by (intro exI conjI)
qed

theorem get_or_create_idempotent_witness:
  "(CHR ''@'' \<in> set ''quay.io/ns/bundle:v1'' \<or> CHR '':'' \<in> set ''quay.io/ns/bundle:v1'') \<and>
   distinct (map pull_specification (images example_db)) \<and>
   (\<exists>d1 d2. get_or_create example_db ''quay.io/ns/bundle:v1'' = (Inr 1, d1) \<and>
      get_or_create d1 ''quay.io/ns/bundle:v1'' = (Inr 1, d2) \<and>
      count_images d1 ''quay.io/ns/bundle:v1'' = 1 \<and>
      count_images d2 ''quay.io/ns/bundle:v1'' = 1)"
proof -
  have h: "CHR ''@'' \<in> set ''quay.io/ns/bundle:v1'' \<or> CHR '':'' \<in> set ''quay.io/ns/bundle:v1''"
    by simp
  have dist: "distinct (map pull_specification (images example_db))"
    by (simp add: example_db_def)
  have absent: "find_index (\<lambda>y. y = ''quay.io/ns/bundle:v1'')
                  (map pull_specification (images example_db)) = None"
    by (simp add: example_db_def)
  have first: "fst (get_or_create example_db ''quay.io/ns/bundle:v1'') = Inr 1"
    using get_or_create_new [OF h absent] by (simp add: example_db_def)
  from get_or_create_idempotent [OF h, of example_db] dist first h show ?thesis
    by auto
qed

section \<open>Properties of the state history\<close>

lemma RequestStateMapping_of_name_Some:
  "RequestStateMapping_of_name n = Some m \<longleftrightarrow> state_member_name m = n"
  by (cases m)
    (auto simp: RequestStateMapping_of_name_def RequestStateMapping_members_def
      split: if_splits)






lemma flush_images_request_states [simp]:
  "request_states (flush_images d) = request_states d"
  "next_request_state_id (flush_images d) = next_request_state_id d"
  "next_request_id (flush_images d) = next_request_id d"
  by (simp_all add: flush_images_def split_beta)










section \<open>Properties of \<open>to_json\<close>\<close>

lemma map_of_setitem:
  "map_of (setitem k v kvs) k' = (if k' = k then Some v else map_of kvs k')"
  by (induction kvs) auto

lemma state_to_json_valid:
  "RequestStateMapping_of_value (state st) = Some e \<Longrightarrow>
     state_to_json st =
       Inr [(''state'', JString (state_member_name e)),
            (''state_reason'', JString (state_reason st)),
            (''updated'', JString (isoformat (updated st) @ ''Z''))]"
  by (simp add: state_to_json_def)

lemma states_to_json_valid:
  "\<forall>st \<in> set sts. RequestStateMapping_of_value (state st) \<noteq> None \<Longrightarrow>
     \<exists>js. states_to_json sts = Inr js \<and> map state_to_json sts = map Inr js"
proof (induction sts)
  case Nil
  then show ?case by simp
next
  case (Cons st sts)
  then obtain e where "RequestStateMapping_of_value (state st) = Some e" by auto
  then obtain j where j: "state_to_json st = Inr j"
    using state_to_json_valid by blast
  from Cons obtain js where "states_to_json sts = Inr js" "map state_to_json sts = map Inr js"
    by auto
  with j show ?case by simp
qed

lemma to_json_verbose_shape:
  assumes "states_to_json (states self) = Inr js" and "rev js = latest # older"
  shows "to_json d self True =
           Inr (dict_update
                  (setitem ''state_history'' (JList (map JDict (rev js))) (to_json_fields d self))
                  latest)"
  using assms by (simp add: to_json_def Let_def)

text \<open>
  Claim C6. The request has a history that is not empty, and every row of it holds a value
  of the enumeration in its column \<open>state\<close>. Then the verbose \<open>to_json\<close> returns a \<open>dict\<close>
  \<open>rv\<close>; \<open>js\<close> are the entries of the rows in the order of the history, and
  \<open>rv['state_history']\<close> is \<open>js\<close> reversed, so its entry 0 is the entry of the last row of
  the history; and \<open>rv['state']\<close>, \<open>rv['state_reason']\<close> and \<open>rv['updated']\<close> are the three
  fields of that entry again.
\<close>

theorem to_json_verbose_history:
  assumes "states self \<noteq> []"
    and "\<forall>st \<in> set (states self). RequestStateMapping_of_value (state st) \<noteq> None"
  shows "\<exists>rv js e.
           to_json d self True = Inr rv \<and>
           map state_to_json (states self) = map Inr js \<and>
           map_of rv ''state_history'' = Some (JList (map JDict (rev js))) \<and>
           RequestStateMapping_of_value (state (last (states self))) = Some e \<and>
           rev js ! 0 =
             [(''state'', JString (state_member_name e)),
              (''state_reason'', JString (state_reason (last (states self)))),
              (''updated'', JString (isoformat (updated (last (states self))) @ ''Z''))] \<and>
           map_of rv ''state'' = Some (JString (state_member_name e)) \<and>
           map_of rv ''state_reason'' = Some (JString (state_reason (last (states self)))) \<and>
           map_of rv ''updated'' =
             Some (JString (isoformat (updated (last (states self))) @ ''Z''))"
proof -
  let ?newest = "last (states self)"
  from states_to_json_valid [OF assms(2)] obtain js
    where js: "states_to_json (states self) = Inr js"
      and each: "map state_to_json (states self) = map Inr js"
    by blast
  from assms obtain e where e: "RequestStateMapping_of_value (state ?newest) = Some e"
    using last_in_set by blast
  let ?entry = "[(''state'', JString (state_member_name e)),
                 (''state_reason'', JString (state_reason ?newest)),
                 (''updated'', JString (isoformat (updated ?newest) @ ''Z''))]"
  have "length (map state_to_json (states self)) = length (map Inr js :: (exn + _) list)"
    by (simp only: each)
  with assms(1) have ne: "js \<noteq> []" by auto
  have "last (map state_to_json (states self)) = last (map Inr js)"
    by (simp only: each)
  with assms(1) ne have "state_to_json ?newest = Inr (last js)"
    by (simp add: last_map)
  with state_to_json_valid [OF e] have entry: "last js = ?entry" by simp
  from ne have "rev js = last js # rev (butlast js)"
    by (metis append_butlast_last_id rev.simps(2) rev_rev_ident rev_swap)
  with entry have rev: "rev js = ?entry # rev (butlast js)" by simp
  let ?rv = "dict_update
      (setitem ''state_history'' (JList (map JDict (rev js))) (to_json_fields d self)) ?entry"
  have tj: "to_json d self True = Inr ?rv"
    using js rev by (rule to_json_verbose_shape)
  have 1: "map_of ?rv ''state_history'' = Some (JList (map JDict (rev js)))"
    and 2: "map_of ?rv ''state'' = Some (JString (state_member_name e))"
    and 3: "map_of ?rv ''state_reason'' = Some (JString (state_reason ?newest))"
    and 4: "map_of ?rv ''updated'' = Some (JString (isoformat (updated ?newest) @ ''Z''))"
    by (simp_all add: map_of_setitem)
  have 5: "rev js ! 0 = ?entry" by (simp add: rev)
  from tj each 1 e 5 2 3 4 show ?thesis
    by (intro exI [of _ ?rv] exI [of _ js] exI [of _ e] conjI)
qed

lemma example_to_json:
  "to_json done_db done_request True =
     Inr [(''id'', JInt 1), (''arches'', JList []),
          (''binary_image'', JString ''quay.io/ns/opm:v1''),
          (''binary_image_resolved'', JNull), (''bundles'', JList []),
          (''from_index'', JNull), (''from_index_resolved'', JNull),
          (''index_image'', JNull), (''user'', JNull),
          (''state_history'',
           JList
            [JDict
              [(''state'', JString ''complete''),
               (''state_reason'', JString ''done''),
               (''updated'', JString ''2020-03-09T14:06:30.001500Z'')],
             JDict
              [(''state'', JString ''in_progress''),
               (''state_reason'', JString ''The request was initiated''),
               (''updated'', JString ''2020-03-09T14:05:07Z'')]]),
          (''state'', JString ''complete''),
          (''state_reason'', JString ''done''),
          (''updated'', JString ''2020-03-09T14:06:30.001500Z'')]"
  by code_simp

theorem to_json_verbose_history_witness:
  "states done_request \<noteq> [] \<and>
   list_all (\<lambda>st. RequestStateMapping_of_value (state st) \<noteq> None) (states done_request) \<and>
   last (states done_request) = row2 \<and>
   (\<exists>rv. to_json done_db done_request True = Inr rv \<and>
      map_of rv ''state_history'' =
        Some (JList
            [JDict
              [(''state'', JString ''complete''),
               (''state_reason'', JString ''done''),
               (''updated'', JString ''2020-03-09T14:06:30.001500Z'')],
             JDict
              [(''state'', JString ''in_progress''),
               (''state_reason'', JString ''The request was initiated''),
               (''updated'', JString ''2020-03-09T14:05:07Z'')]]) \<and>
      map_of rv ''state'' = Some (JString ''complete'') \<and>
      map_of rv ''state_reason'' = Some (JString ''done'') \<and>
      map_of rv ''updated'' = Some (JString ''2020-03-09T14:06:30.001500Z''))"
proof -
  have ne: "states done_request \<noteq> []"
    by (simp add: done_request_def)
  have valid: "\<forall>st \<in> set (states done_request). RequestStateMapping_of_value (state st) \<noteq> None"
    by (simp add: done_request_def row1_def row2_def RequestStateMapping_of_value_def
        RequestStateMapping_members_def)
  from to_json_verbose_history [OF ne valid, of done_db] obtain rv
    where rv: "to_json done_db done_request True = Inr rv"
    by blast
  have out: "rv =
     [(''id'', JInt 1), (''arches'', JList []),
      (''binary_image'', JString ''quay.io/ns/opm:v1''),
      (''binary_image_resolved'', JNull), (''bundles'', JList []),
      (''from_index'', JNull), (''from_index_resolved'', JNull),
      (''index_image'', JNull), (''user'', JNull),
      (''state_history'',
       JList
        [JDict
          [(''state'', JString ''complete''),
           (''state_reason'', JString ''done''),
           (''updated'', JString ''2020-03-09T14:06:30.001500Z'')],
         JDict
          [(''state'', JString ''in_progress''),
           (''state_reason'', JString ''The request was initiated''),
           (''updated'', JString ''2020-03-09T14:05:07Z'')]]),
      (''state'', JString ''complete''),
      (''state_reason'', JString ''done''),
      (''updated'', JString ''2020-03-09T14:06:30.001500Z'')]"
    using rv example_to_json by simp
  have fields: "map_of rv ''state_history'' =
        Some (JList
            [JDict
              [(''state'', JString ''complete''),
               (''state_reason'', JString ''done''),
               (''updated'', JString ''2020-03-09T14:06:30.001500Z'')],
             JDict
              [(''state'', JString ''in_progress''),
               (''state_reason'', JString ''The request was initiated''),
               (''updated'', JString ''2020-03-09T14:05:07Z'')]])"
    "map_of rv ''state'' = Some (JString ''complete'')"
    "map_of rv ''state_reason'' = Some (JString ''done'')"
    "map_of rv ''updated'' = Some (JString ''2020-03-09T14:06:30.001500Z'')"
    by (simp_all add: out)
  have "last (states done_request) = row2"
    by (simp add: done_request_def)
  moreover have "list_all (\<lambda>st. RequestStateMapping_of_value (state st) \<noteq> None)
                   (states done_request)"
    using valid by (simp add: list_all_iff)
  ultimately show ?thesis
    using ne rv fields by blast
qed

section \<open>Properties of \<open>from_json\<close>\<close>

lemma example_from_json_both:
  "from_json None t0 example_db payload_both = (Inr created_request, created_db)"
  by code_simp

lemma example_from_json_from_index:
  "from_json None t0 example_db payload_from_index = (Inr created_request, created_db)"
  by code_simp

text \<open>
  Claim C2 as stated fails: a payload with both \<open>from_index\<close> and a non-empty \<open>add_arches\<close>
  is accepted.
\<close>

theorem from_json_both_counterexample:
  "get_truthy payload_both ''from_index'' \<and> get_truthy payload_both ''add_arches'' \<and>
   from_json None t0 example_db payload_both = (Inr created_request, created_db)"
  using example_from_json_both by (simp add: get_truthy_def payload_both_def)

text \<open>The exceptions that the parts of \<open>from_json\<close> raise.\<close>

lemma check_add_arches_error:
  "check_add_arches v = Inl e \<Longrightarrow> e \<noteq> ValidationError one_of_message"
  by (auto simp: check_add_arches_def one_of_message_def split: json.splits if_splits)

lemma check_bundles_error:
  "check_bundles v = Inl e \<Longrightarrow> e \<noteq> ValidationError one_of_message"
  by (auto simp: check_bundles_def one_of_message_def split: json.splits if_splits)

lemma check_binary_image_error:
  "check_binary_image v = Inl e \<Longrightarrow> e \<noteq> ValidationError one_of_message"
  by (auto simp: check_binary_image_def one_of_message_def split: json.splits if_splits)

lemma check_optional_str_error:
  "check_optional_str p v = Inl e \<Longrightarrow> e \<noteq> ValidationError one_of_message"
  by (auto simp: check_optional_str_def one_of_message_def
      split: option.splits json.splits if_splits)

lemma get_or_create_error:
  "get_or_create d s = (Inl e, d') \<Longrightarrow> e \<noteq> ValidationError one_of_message"
  by (auto simp: get_or_create_def one_of_message_def Let_def
      split: if_splits option.splits)

lemma get_or_create_all_error:
  "get_or_create_all d ss = (Inl e, d') \<Longrightarrow> e \<noteq> ValidationError one_of_message"
proof (induction ss arbitrary: d)
  case Nil
  then show ?case by simp
next
  case (Cons s ss)
  show ?case
  proof (cases "get_or_create d s")
    case (Pair r d1)
    show ?thesis
    proof (cases r)
      case (Inl e1)
      with Pair Cons.prems have "get_or_create d s = (Inl e, d')" by simp
      then show ?thesis by (rule get_or_create_error)
    next
      case (Inr i)
      with Pair Cons.prems have "get_or_create_all d1 ss = (Inl e, d')"
        by (auto split: prod.splits sum.splits)
      then show ?thesis by (rule Cons.IH)
    qed
  qed
qed

lemma from_json_checks_error:
  assumes "from_json_checks kwargs = Inl e"
    and "get_truthy kwargs ''from_index'' \<or> get_truthy kwargs ''add_arches''"
  shows "e \<noteq> ValidationError one_of_message"
proof -
  let ?missing = "filter (\<lambda>p. p \<notin> fst ` set kwargs \<and> p \<notin> set optional_params) required_params"
  let ?invalid = "filter (\<lambda>k. k \<notin> set required_params \<and> k \<notin> set optional_params)
                    (remdups (map fst kwargs))"
  consider (missing) "?missing \<noteq> []"
    | (invalid) "?missing = []" "?invalid \<noteq> []"
    | (rest) "?missing = []" "?invalid = []"
    by blast
  then show ?thesis
  proof cases
    case missing
    with assms(1) show ?thesis
      by (auto simp: from_json_checks_def Let_def one_of_message_def simp del: filter.simps)
  next
    case invalid
    with assms(1) show ?thesis
      by (auto simp: from_json_checks_def Let_def one_of_message_def simp del: filter.simps)
  next
    case rest
    with assms show ?thesis
      by (auto simp: from_json_checks_def Let_def simp del: filter.simps
          split: sum.splits option.splits
          dest: check_add_arches_error check_bundles_error check_binary_image_error)
  qed
qed

lemma add_state_initial:
  assumes "request_state_id self = None"
  shows "\<exists>d' self'. add_state now d self ''in_progress'' reason = (Inr (), d', self')"
proof -
  have "RequestStateMapping_of_name ''in_progress'' = Some in_progress"
    by (simp add: RequestStateMapping_of_name_Some)
  moreover have "Request_state d self = None"
    using assms by (simp add: Request_state_def)
  ultimately show ?thesis
    by (simp add: add_state_def Let_def)
qed


lemma from_json_error:
  assumes run: "from_json current_user now d kwargs = (Inl e, d')"
    and one: "get_truthy kwargs ''from_index'' \<or> get_truthy kwargs ''add_arches''"
  shows "e \<noteq> ValidationError one_of_message"
proof (cases "from_json_checks kwargs")
  case (Inl e1)
  with run have "e1 = e" by (simp add: from_json_def)
  with Inl one show ?thesis by (auto dest: from_json_checks_error)
next
  case (Inr v)
  obtain bs b where v: "v = (bs, b)" by (cases v)
  obtain r1 d1 where g1: "get_or_create_all d bs = (r1, d1)" by (cases "get_or_create_all d bs")
  show ?thesis
  proof (cases r1)
    case (Inl e1)
    with run Inr v g1 have "get_or_create_all d bs = (Inl e, d')" by (simp add: from_json_def)
    then show ?thesis by (rule get_or_create_all_error)
  next
    case bundle_refs: (Inr bundle_refs)
    obtain r2 d2 where g2: "get_or_create d1 b = (r2, d2)" by (cases "get_or_create d1 b")
    show ?thesis
    proof (cases r2)
      case (Inl e2)
      with run Inr v g1 bundle_refs g2 have "get_or_create d1 b = (Inl e, d')"
        by (simp add: from_json_def)
      then show ?thesis by (rule get_or_create_error)
    next
      case binary_ref: (Inr binary_ref)
      show ?thesis
      proof (cases "check_optional_str ''from_index'' (map_of kwargs ''from_index'')")
        case (Inl e3)
        with run Inr v g1 bundle_refs g2 binary_ref have "e3 = e" by (simp add: from_json_def)
        with Inl show ?thesis by (auto dest: check_optional_str_error)
      next
        case fi: (Inr from_index_value)
        let ?lookup = "case from_index_value of
              None \<Rightarrow> (Inr None, d2)
            | Some s \<Rightarrow>
                (case get_or_create d2 s of
                   (Inl e, d3) \<Rightarrow> (Inl e, d3)
                 | (Inr i, d3) \<Rightarrow> (Inr (Some i), d3))"
        obtain r3 d3 where g3: "?lookup = (r3, d3)" by (cases ?lookup)
        show ?thesis
        proof (cases r3)
          case (Inl e4)
          with g3 obtain s where "get_or_create d2 s = (Inl e4, d3)"
            by (auto split: option.splits prod.splits sum.splits)
          then have "e4 \<noteq> ValidationError one_of_message" by (rule get_or_create_error)
          moreover from run Inr v g1 bundle_refs g2 binary_ref fi g3 Inl have "e4 = e"
            by (simp add: from_json_def)
          ultimately show ?thesis by simp
        next
          case from_index_ref: (Inr from_index_ref)
          show ?thesis
          proof (cases "check_optional_str ''cnr_token'' (map_of kwargs ''cnr_token'')")
            case (Inl e5)
            with run Inr v g1 bundle_refs g2 binary_ref fi g3 from_index_ref have "e5 = e"
              by (simp add: from_json_def)
            with Inl show ?thesis by (auto dest: check_optional_str_error)
          next
            case cnr: (Inr cnr_token)
            let ?request =
              "\<lparr>req_id = None, binary_image = binary_ref, binary_image_resolved = None,
                bundles = bundle_refs, from_index = from_index_ref,
                from_index_resolved = None, index_image = None, request_state_id = None,
                request_type = type_value add, user = current_user, states = []\<rparr>"
            have "request_state_id ?request = None" by simp
            from add_state_initial [OF this, of t d3 "''The request was initiated''" for t]
            obtain d4 request'
              where "add_state now d3 ?request ''in_progress'' ''The request was initiated'' =
                       (Inr (), d4, request')"
              by blast
            with run Inr v g1 bundle_refs g2 binary_ref fi g3 from_index_ref cnr
            show ?thesis
              by (simp add: from_json_def Let_def)
          qed
        qed
      qed
    qed
  qed
qed

text \<open>
  Claim C2, as the code has it. When neither \<open>from_index\<close> nor \<open>add_arches\<close> has a true
  value in the payload (the key is absent, or its value is \<open>None\<close>, empty or zero),
  \<open>from_json\<close> raises \<open>ValidationError\<close> and the session is as it was. When at least one of
  them has a true value, also when both have, \<open>from_json\<close> does not raise the error of that
  check: it goes on to the other checks.
\<close>

theorem from_json_needs_one:
  "(\<not> get_truthy kwargs ''from_index'' \<and> \<not> get_truthy kwargs ''add_arches'' \<longrightarrow>
      (\<exists>msg. from_json current_user now d kwargs = (Inl (ValidationError msg), d))) \<and>
   (get_truthy kwargs ''from_index'' \<or> get_truthy kwargs ''add_arches'' \<longrightarrow>
      fst (from_json current_user now d kwargs) \<noteq> Inl (ValidationError one_of_message))"
proof (intro conjI impI)
  assume neither: "\<not> get_truthy kwargs ''from_index'' \<and> \<not> get_truthy kwargs ''add_arches''"
  then have "\<exists>msg. from_json_checks kwargs = Inl (ValidationError msg)"
    by (simp add: from_json_checks_def Let_def del: filter.simps)
  then show "\<exists>msg. from_json current_user now d kwargs = (Inl (ValidationError msg), d)"
    by (auto simp: from_json_def)
next
  assume one: "get_truthy kwargs ''from_index'' \<or> get_truthy kwargs ''add_arches''"
  show "fst (from_json current_user now d kwargs) \<noteq> Inl (ValidationError one_of_message)"
  proof
    assume "fst (from_json current_user now d kwargs) = Inl (ValidationError one_of_message)"
    then obtain d' where
      "from_json current_user now d kwargs = (Inl (ValidationError one_of_message), d')"
      by (cases "from_json current_user now d kwargs") simp
    from from_json_error [OF this one] show False by simp
  qed
qed

theorem from_json_needs_one_witness:
  "\<not> get_truthy payload_neither ''from_index'' \<and> \<not> get_truthy payload_neither ''add_arches'' \<and>
   from_json None t0 example_db payload_neither =
     (Inl (ValidationError one_of_message), example_db) \<and>
   get_truthy payload_both ''from_index'' \<and> get_truthy payload_both ''add_arches'' \<and>
   fst (from_json None t0 example_db payload_both) = Inr created_request"
proof -
  have neither: "\<not> get_truthy payload_neither ''from_index'' \<and>
                 \<not> get_truthy payload_neither ''add_arches''"
    by (simp add: get_truthy_def payload_neither_def)
  have both: "get_truthy payload_both ''from_index''" "get_truthy payload_both ''add_arches''"
    by (simp_all add: get_truthy_def payload_both_def)
  from from_json_needs_one [of payload_neither None t0 example_db] neither
  obtain msg where raised:
    "from_json None t0 example_db payload_neither = (Inl (ValidationError msg), example_db)"
    by blast
  have "from_json_checks payload_neither = Inl (ValidationError one_of_message)"
    using neither
    by (simp add: from_json_checks_def Let_def required_params_def optional_params_def
        payload_neither_def)
  then have "fst (from_json None t0 example_db payload_neither) =
               Inl (ValidationError one_of_message)"
    by (simp add: from_json_def)
  with raised have "msg = one_of_message" by simp
  with raised neither both example_from_json_both show ?thesis
    by simp
qed

lemma from_json_checks_Inr:
  assumes "from_json_checks kwargs = Inr (bs, b)"
  shows "\<exists>bundles' binary_image'.
           map_of kwargs ''bundles'' = Some bundles' \<and> check_bundles bundles' = Inr bs \<and>
           map_of kwargs ''binary_image'' = Some binary_image' \<and>
           check_binary_image binary_image' = Inr b"
  using assms
  by (auto simp: from_json_checks_def Let_def simp del: filter.simps
      split: if_splits sum.splits option.splits)

text \<open>
  Claim C9. Two payloads have the same value, or both none, for every key other than
  \<open>add_arches\<close>, and both pass the checks of the parameters. Then \<open>from_json\<close> does the same
  for both: it returns the same request, or raises the same exception, and leaves the
  session the same, images and rows. What \<open>add_arches\<close> holds is in neither.
\<close>

theorem from_json_add_arches_discarded:
  assumes agree: "\<forall>k. k \<noteq> ''add_arches'' \<longrightarrow> map_of kwargs1 k = map_of kwargs2 k"
    and ok1: "from_json_checks kwargs1 = Inr v1"
    and ok2: "from_json_checks kwargs2 = Inr v2"
  shows "from_json current_user now d kwargs1 = from_json current_user now d kwargs2"
proof -
  obtain bs1 b1 bs2 b2 where v: "v1 = (bs1, b1)" "v2 = (bs2, b2)"
    by (cases v1, cases v2) blast
  from agree have same: "map_of kwargs1 ''bundles'' = map_of kwargs2 ''bundles''"
    "map_of kwargs1 ''binary_image'' = map_of kwargs2 ''binary_image''"
    "map_of kwargs1 ''from_index'' = map_of kwargs2 ''from_index''"
    "map_of kwargs1 ''cnr_token'' = map_of kwargs2 ''cnr_token''"
    by simp_all
  from from_json_checks_Inr [OF ok1 [unfolded v]] from_json_checks_Inr [OF ok2 [unfolded v]] same
  have "bs1 = bs2" "b1 = b2" by auto
  with ok1 ok2 v same show ?thesis
    by (simp add: from_json_def cong: sum.case_cong prod.case_cong option.case_cong)
qed

theorem from_json_add_arches_discarded_witness:
  "(map_of payload_both) (''add_arches'' := None) =
     (map_of payload_from_index) (''add_arches'' := None) \<and>
   map_of payload_both ''add_arches'' = Some (JList [JString ''amd64'']) \<and>
   map_of payload_from_index ''add_arches'' = None \<and>
   from_json_checks payload_both = Inr ([''quay.io/ns/bundle:v1''], ''quay.io/ns/opm:v1'') \<and>
   from_json_checks payload_from_index = Inr ([''quay.io/ns/bundle:v1''], ''quay.io/ns/opm:v1'') \<and>
   from_json None t0 example_db payload_both = (Inr created_request, created_db) \<and>
   from_json None t0 example_db payload_from_index = (Inr created_request, created_db)"
proof -
  have agree: "\<forall>k. k \<noteq> ''add_arches'' \<longrightarrow> map_of payload_both k = map_of payload_from_index k"
    by (simp add: payload_both_def payload_from_index_def)
  have ok1: "from_json_checks payload_both =
               Inr ([''quay.io/ns/bundle:v1''], ''quay.io/ns/opm:v1'')"
    by code_simp
  have ok2: "from_json_checks payload_from_index =
               Inr ([''quay.io/ns/bundle:v1''], ''quay.io/ns/opm:v1'')"
    by code_simp
  from from_json_add_arches_discarded [OF agree ok1 ok2, of None t0 example_db]
    example_from_json_both
  have "from_json None t0 example_db payload_from_index = (Inr created_request, created_db)"
    by simp
  moreover have "(map_of payload_both) (''add_arches'' := None) =
                   (map_of payload_from_index) (''add_arches'' := None)"
    using agree by (auto simp: fun_eq_iff)
  moreover have "map_of payload_both ''add_arches'' = Some (JList [JString ''amd64''])"
    "map_of payload_from_index ''add_arches'' = None"
    by (simp_all add: payload_both_def payload_from_index_def)
  ultimately show ?thesis
    using ok1 ok2 example_from_json_both by blast
qed

end
